theory Spec2Isabelle
  imports Complex_Main
begin

section \<open>Python strings\<close>

text \<open>
  A Python \<open>str\<close> is a sequence of Unicode code points, so a string is a list of
  code points (natural numbers); \<open>length\<close> then counts what \<open>len\<close> counts.
  \<open>asc\<close> turns an ASCII literal into such a string.
\<close>

type_synonym ustr = "nat list"

definition asc :: "string \<Rightarrow> ustr" where
  "asc s = map of_char s"

text \<open>
  The characters for which \<open>str.isspace\<close> holds; the same set is what \<open>\s\<close> matches
  in a \<open>str\<close> pattern and what \<open>str.strip()\<close> removes.
\<close>

definition is_space :: "nat \<Rightarrow> bool" where
  "is_space c \<longleftrightarrow>
     (9 \<le> c \<and> c \<le> 13) \<or> (28 \<le> c \<and> c \<le> 32) \<or> c = 133 \<or> c = 160 \<or> c = 5760 \<or>
     (8192 \<le> c \<and> c \<le> 8202) \<or> c = 8232 \<or> c = 8233 \<or> c = 8239 \<or> c = 8287 \<or> c = 12288"

text \<open>
  The part of the Unicode character database the code reaches through \<open>str.lower\<close>,
  \<open>\d\<close>, \<open>float\<close> and \<open>re.IGNORECASE\<close>. The database belongs to the Python runtime,
  not to the repository, so it is a parameter of every function that consults it:
  \<^item> \<open>dec_digit c\<close> is the value of \<open>c\<close> when it is a decimal digit (category Nd);
  \<^item> \<open>str_lower s\<close> is \<open>s.lower()\<close>;
  \<^item> \<open>case_eq p c\<close> holds when pattern character \<open>p\<close> matches \<open>c\<close> under
    \<open>re.IGNORECASE\<close>.
\<close>

record ucd =
  dec_digit :: "nat \<Rightarrow> nat option"
  str_lower :: "ustr \<Rightarrow> ustr"
  case_eq :: "nat \<Rightarrow> nat \<Rightarrow> bool"

definition lower_latin :: "nat \<Rightarrow> nat" where
  "lower_latin c = (if 65 \<le> c \<and> c \<le> 90 then c + 32 else c)"

text \<open>
  The database restricted to Basic Latin: digits \<open>0\<close> to \<open>9\<close>, letters \<open>A\<close> to \<open>Z\<close>;
  every other character is a caseless non-digit. It agrees with the runtime's database on
  every string whose characters beyond ASCII are caseless and not digits (CJK text,
  \<open>\<pi>\<close>, full-width punctuation), and is the instance used for concrete runs.
\<close>

definition ucd_basic :: ucd where
  "ucd_basic = \<lparr> dec_digit = (\<lambda>c. if 48 \<le> c \<and> c \<le> 57 then Some (c - 48) else None),
                 str_lower = map lower_latin,
                 case_eq = (\<lambda>p c. lower_latin p = lower_latin c) \<rparr>"

datatype py_error = ValueError | AttributeError | IndexError | ReError

fun starts_with :: "'a list \<Rightarrow> 'a list \<Rightarrow> bool" where
  "starts_with [] s = True"
| "starts_with (p # ps) [] = False"
| "starts_with (p # ps) (c # cs) = (p = c \<and> starts_with ps cs)"

text \<open>\<open>sub in s\<close> on strings.\<close>

fun contains :: "'a list \<Rightarrow> 'a list \<Rightarrow> bool" where
  "contains sub [] = (sub = [])"
| "contains sub (c # cs) = (starts_with sub (c # cs) \<or> contains sub cs)"

text \<open>\<open>s.strip()\<close> and \<open>s.rstrip(chars)\<close>.\<close>

definition py_strip :: "ustr \<Rightarrow> ustr" where
  "py_strip s = rev (dropWhile is_space (rev (dropWhile is_space s)))"

definition py_rstrip :: "ustr \<Rightarrow> ustr \<Rightarrow> ustr" where
  "py_rstrip chars s = rev (dropWhile (\<lambda>c. c \<in> set chars) (rev s))"

text \<open>
  \<open>s.split(sep)\<close> and \<open>s.replace(old, new)\<close> scan from the left and take
  non-overlapping occurrences. The source only passes non-empty literals for \<open>sep\<close> and
  \<open>old\<close>; with an empty one the functions below find no occurrence.
\<close>

function py_split :: "ustr \<Rightarrow> ustr \<Rightarrow> ustr list" where
  "py_split sep [] = [[]]"
| "py_split sep (c # cs) =
     (if sep \<noteq> [] \<and> starts_with sep (c # cs)
      then [] # py_split sep (drop (length sep) (c # cs))
      else (case py_split sep cs of [] \<Rightarrow> [[c]] | p # ps \<Rightarrow> (c # p) # ps))"
  by pat_completeness auto
termination
  by (relation "measure (\<lambda>(sep, s). length s)") (auto simp: neq_Nil_conv)

function py_replace :: "ustr \<Rightarrow> ustr \<Rightarrow> ustr \<Rightarrow> ustr" where
  "py_replace old new [] = []"
| "py_replace old new (c # cs) =
     (if old \<noteq> [] \<and> starts_with old (c # cs)
      then new @ py_replace old new (drop (length old) (c # cs))
      else c # py_replace old new cs)"
  by pat_completeness auto
termination
  by (relation "measure (\<lambda>(old, new, s). length s)") (auto simp: neq_Nil_conv)

text \<open>\<open>xs[-1]\<close>, which raises IndexError on an empty list.\<close>

definition py_last :: "'a list \<Rightarrow> py_error + 'a" where
  "py_last xs = (case rev xs of [] \<Rightarrow> Inl IndexError | x # _ \<Rightarrow> Inr x)"

section \<open>Regular expressions\<close>

text \<open>
  The patterns of the source use literals, \<open>.\<close>, \<open>\d\<close>, \<open>\s\<close>, character classes,
  \<open>^\<close>, \<open>$\<close>, sequence, alternation, one capturing group, and the quantifiers
  \<open>*\<close>, \<open>+\<close>, \<open>?\<close>, \<open>*?\<close>, \<open>+?\<close>, where \<open>*\<close> and \<open>+\<close> are only ever applied to
  something that matches one character. The syntax below is that fragment:
  \<open>Rep greedy n a\<close> is \<open>a{n,}\<close> (greedy or lazy) and \<open>r?\<close> is \<open>Alt r Eps\<close>.
\<close>

datatype atom = Ch nat | AnyCh | Digit | Space | OneOf "atom list"

datatype regex =
    Atom atom | Eps | Bos | Eos
  | Seq regex regex | Alt regex regex
  | Rep bool nat atom
  | Grp regex

text \<open>\<open>amatch U ic a c\<close>: atom \<open>a\<close> matches character \<open>c\<close>; \<open>ic\<close> is \<open>re.IGNORECASE\<close>.\<close>

fun amatch :: "ucd \<Rightarrow> bool \<Rightarrow> atom \<Rightarrow> nat \<Rightarrow> bool" where
  "amatch U ic (Ch p) c = (if ic then case_eq U p c else p = c)"
| "amatch U ic AnyCh c = (c \<noteq> 10)"
| "amatch U ic Digit c = (dec_digit U c \<noteq> None)"
| "amatch U ic Space c = is_space c"
| "amatch U ic (OneOf as) c = list_ex (\<lambda>a. amatch U ic a c) as"

text \<open>
  A matcher state is the current position in the text and the span of group 1, if it has
  been closed. \<open>rmatch\<close> returns every state in which the pattern can finish, in the order
  in which a backtracking matcher tries them: the head of the list is the match that
  \<open>re\<close> reports.
\<close>

type_synonym mstate = "nat \<times> (nat \<times> nat) option"

definition run_len :: "ucd \<Rightarrow> bool \<Rightarrow> atom \<Rightarrow> ustr \<Rightarrow> nat \<Rightarrow> nat" where
  "run_len U ic a txt i = length (takeWhile (amatch U ic a) (drop i txt))"

fun rmatch :: "ucd \<Rightarrow> bool \<Rightarrow> ustr \<Rightarrow> regex \<Rightarrow> mstate \<Rightarrow> mstate list" where
  "rmatch U ic txt (Atom a) (i, g) =
     (if i < length txt \<and> amatch U ic a (txt ! i) then [(Suc i, g)] else [])"
| "rmatch U ic txt Eps st = [st]"
| "rmatch U ic txt Bos (i, g) = (if i = 0 then [(i, g)] else [])"
| "rmatch U ic txt Eos (i, g) =
     (if i = length txt \<or> (Suc i = length txt \<and> txt ! i = 10) then [(i, g)] else [])"
| "rmatch U ic txt (Seq r1 r2) st = concat (map (rmatch U ic txt r2) (rmatch U ic txt r1 st))"
| "rmatch U ic txt (Alt r1 r2) st = rmatch U ic txt r1 st @ rmatch U ic txt r2 st"
| "rmatch U ic txt (Rep greedy n a) (i, g) =
     (let k = run_len U ic a txt i;
          counts = (if greedy then rev [n..<Suc k] else [n..<Suc k])
      in map (\<lambda>m. (i + m, g)) counts)"
| "rmatch U ic txt (Grp r) (i, g) = map (\<lambda>(j, g'). (j, Some (i, j))) (rmatch U ic txt r (i, g))"

text \<open>A match: start, end, and the span of group 1.\<close>

type_synonym rematch = "nat \<times> nat \<times> (nat \<times> nat) option"

definition slice :: "ustr \<Rightarrow> nat \<Rightarrow> nat \<Rightarrow> ustr" where
  "slice txt i j = take (j - i) (drop i txt)"

definition group0 :: "ustr \<Rightarrow> rematch \<Rightarrow> ustr" where
  "group0 txt m = (case m of (i, j, g) \<Rightarrow> slice txt i j)"

text \<open>\<open>m.group(1)\<close>: \<open>None\<close> when the group took no part in the match.\<close>

definition group1 :: "ustr \<Rightarrow> rematch \<Rightarrow> ustr option" where
  "group1 txt m = (case m of (i, j, g) \<Rightarrow> (case g of None \<Rightarrow> None | Some (a, b) \<Rightarrow> Some (slice txt a b)))"

definition match_at :: "ucd \<Rightarrow> bool \<Rightarrow> regex \<Rightarrow> ustr \<Rightarrow> nat \<Rightarrow> rematch option" where
  "match_at U ic r txt i =
     (case rmatch U ic txt r (i, None) of [] \<Rightarrow> None | (j, g) # _ \<Rightarrow> Some (i, j, g))"

fun first_match :: "ucd \<Rightarrow> bool \<Rightarrow> regex \<Rightarrow> ustr \<Rightarrow> nat list \<Rightarrow> rematch option" where
  "first_match U ic r txt [] = None"
| "first_match U ic r txt (i # is) =
     (case match_at U ic r txt i of None \<Rightarrow> first_match U ic r txt is | Some m \<Rightarrow> Some m)"

text \<open>\<open>re.search\<close>: the match at the leftmost start position that has one.\<close>

definition re_search :: "ucd \<Rightarrow> bool \<Rightarrow> regex \<Rightarrow> ustr \<Rightarrow> rematch option" where
  "re_search U ic r txt = first_match U ic r txt [0..<Suc (length txt)]"

text \<open>\<open>re.match\<close>: a match starting at position 0.\<close>

definition re_match :: "ucd \<Rightarrow> bool \<Rightarrow> regex \<Rightarrow> ustr \<Rightarrow> rematch option" where
  "re_match U ic r txt = match_at U ic r txt 0"

fun has_group :: "regex \<Rightarrow> bool" where
  "has_group (Grp r) = True"
| "has_group (Seq r1 r2) = (has_group r1 \<or> has_group r2)"
| "has_group (Alt r1 r2) = (has_group r1 \<or> has_group r2)"
| "has_group r = False"

text \<open>\<open>closes_group r\<close>: every way through \<open>r\<close> passes through the capturing group.\<close>

fun closes_group :: "regex \<Rightarrow> bool" where
  "closes_group (Grp r) = True"
| "closes_group (Seq r1 r2) = (closes_group r1 \<or> closes_group r2)"
| "closes_group (Alt r1 r2) = (closes_group r1 \<and> closes_group r2)"
| "closes_group r = False"

text \<open>
  \<open>re.findall\<close>: the non-overlapping matches from left to right; each contributes
  group 1 when the pattern has a group (the empty string when the group took no part),
  the whole match otherwise. None of the patterns the source passes to \<open>findall\<close> or
  \<open>sub\<close> can match the empty string; after an empty match the scan below moves one
  character on.
\<close>

definition match_item :: "regex \<Rightarrow> ustr \<Rightarrow> rematch \<Rightarrow> ustr" where
  "match_item r txt m =
     (if has_group r then (case group1 txt m of None \<Rightarrow> [] | Some s \<Rightarrow> s) else group0 txt m)"

function findall_from :: "ucd \<Rightarrow> bool \<Rightarrow> regex \<Rightarrow> ustr \<Rightarrow> nat \<Rightarrow> ustr list" where
  "findall_from U ic r txt i =
     (if length txt < i then []
      else (case match_at U ic r txt i of
              None \<Rightarrow> findall_from U ic r txt (Suc i)
            | Some m \<Rightarrow> match_item r txt m # findall_from U ic r txt (max (fst (snd m)) (Suc i))))"
  by pat_completeness auto
termination
  by (relation "measure (\<lambda>(U, ic, r, txt, i). Suc (length txt) - i)") auto

definition re_findall :: "ucd \<Rightarrow> bool \<Rightarrow> regex \<Rightarrow> ustr \<Rightarrow> ustr list" where
  "re_findall U ic r txt = findall_from U ic r txt 0"

text \<open>\<open>re.sub(r, repl, txt)\<close> for a replacement without escapes.\<close>

function sub_from :: "ucd \<Rightarrow> bool \<Rightarrow> regex \<Rightarrow> ustr \<Rightarrow> ustr \<Rightarrow> nat \<Rightarrow> ustr" where
  "sub_from U ic r repl txt i =
     (if length txt \<le> i then []
      else (case match_at U ic r txt i of
              None \<Rightarrow> txt ! i # sub_from U ic r repl txt (Suc i)
            | Some m \<Rightarrow>
                (if i < fst (snd m) then repl @ sub_from U ic r repl txt (fst (snd m))
                 else txt ! i # sub_from U ic r repl txt (Suc i))))"
  by pat_completeness auto
termination
  by (relation "measure (\<lambda>(U, ic, r, repl, txt, i). length txt - i)") auto

definition re_sub :: "ucd \<Rightarrow> bool \<Rightarrow> regex \<Rightarrow> ustr \<Rightarrow> ustr \<Rightarrow> ustr" where
  "re_sub U ic r repl txt = sub_from U ic r repl txt 0"

text \<open>Pattern builders: a literal string, a sequence, \<open>r?\<close>.\<close>

definition lit :: "ustr \<Rightarrow> regex" where
  "lit s = foldr (\<lambda>c r. Seq (Atom (Ch c)) r) s Eps"

definition seqs :: "regex list \<Rightarrow> regex" where
  "seqs rs = foldr Seq rs Eps"

definition opt :: "regex \<Rightarrow> regex" where
  "opt r = Alt r Eps"

text \<open>
  \<^verbatim>\<open>lines = text.strip().split('\n'); last_line = lines[-1].strip()\<close>, as both
  extractors compute it.
\<close>

definition last_line :: "ustr \<Rightarrow> py_error + ustr" where
  "last_line text =
     (case py_last (py_split [10] (py_strip text)) of
        Inl e \<Rightarrow> Inl e
      | Inr l \<Rightarrow> Inr (py_strip l))"

section \<open>The dataset loader's reference answer (src/datasets/gsm8k.py)\<close>

text \<open>
  \<open>item.get('answer', '')\<close> is whatever the JSON line holds: a string, or some value that
  is not a string (null, a number, a list), which has no \<open>strip\<close>.
\<close>

datatype pyval = PyStr ustr | PyNonStr nat

text \<open>\<^verbatim>\<open>r'-?\d+\.?\d*'\<close>\<close>

definition gsm_number_re :: regex where
  "gsm_number_re = seqs [opt (Atom (Ch 45)), Rep True 1 Digit, opt (Atom (Ch 46)), Rep True 0 Digit]"

text \<open>
  The \<open>if "answer is" in last_line.lower()\<close> block: the first number after the first
  \<open>answer is\<close> of the lower-cased last line, when the block returns. The characters
  removed are \<open>$\<close>, the comma, and the two-character string backslash-dollar.
\<close>

definition answer_is_number :: "ucd \<Rightarrow> ustr \<Rightarrow> ustr option" where
  "answer_is_number U line =
     (if contains (asc ''answer is'') (str_lower U line) then
        (let parts = py_split (asc ''answer is'') (str_lower U line) in
         if 1 < length parts then
           (let number_part = fold (\<lambda>ch s. py_replace ch [] s) [[36], [44], [92, 36]]
                                (py_strip (parts ! 1))
            in (case re_findall U False gsm_number_re number_part of
                  [] \<Rightarrow> None | m # _ \<Rightarrow> Some m))
         else None)
      else None)"

text \<open>The body of the \<open>try\<close> in \<open>_extract_final_answer\<close>.\<close>

definition extract_final_body :: "ucd \<Rightarrow> pyval \<Rightarrow> py_error + pyval" where
  "extract_final_body U answer_text =
     (case answer_text of
        PyNonStr v \<Rightarrow> Inl AttributeError
      | PyStr t \<Rightarrow>
          (case last_line t of
             Inl e \<Rightarrow> Inl e
           | Inr l \<Rightarrow>
               (case answer_is_number U l of
                  Some m \<Rightarrow> Inr (PyStr m)
                | None \<Rightarrow>
                    (case re_findall U False gsm_number_re t of
                       [] \<Rightarrow> Inr answer_text
                     | n # ns \<Rightarrow> Inr (PyStr (last (n # ns)))))))"

text \<open>\<open>_extract_final_answer\<close>: \<open>except Exception: return answer_text\<close>.\<close>

definition extract_final_answer :: "ucd \<Rightarrow> pyval \<Rightarrow> pyval" where
  "extract_final_answer U answer_text =
     (case extract_final_body U answer_text of Inl e \<Rightarrow> answer_text | Inr v \<Rightarrow> v)"

section \<open>Answer extraction (src/metrics/accuracy.py, \<open>_extract_answer\<close>)\<close>

text \<open>
  The caller's \<open>answer_pattern\<close> is an arbitrary regular expression, so it is modelled by
  what \<open>re.search(pattern, text)\<close> does with it: it raises \<open>re.error\<close> (a malformed
  pattern such as \<open>(\<close>), finds nothing, or finds a match whose \<open>groups()\<close> are given,
  \<open>None\<close> standing for a group that took no part in the match. The absent pattern
  (\<open>None\<close>, or the empty string, both false in \<open>if pattern:\<close>) is \<open>None\<close>.
\<close>

datatype search_result = SearchRaises | NoMatch | Matched "ustr option list"

type_synonym pattern = "ustr \<Rightarrow> search_result"

text \<open>A pattern of the fragment above as a caller's pattern.\<close>

definition compiled :: "ucd \<Rightarrow> regex \<Rightarrow> pattern" where
  "compiled U r text =
     (case re_search U False r text of
        None \<Rightarrow> NoMatch
      | Some m \<Rightarrow> Matched (if has_group r then [group1 text m] else []))"

text \<open>
  Two caller patterns: one on which \<open>re.search\<close> raises \<open>re.error\<close>, as it does on
  the pattern \<open>(\<close>, and \<^verbatim>\<open>r'=\s*(\d+)'\<close>.
\<close>

definition malformed_pattern :: pattern where
  "malformed_pattern text = SearchRaises"

definition equals_digits_pattern :: regex where
  "equals_digits_pattern = seqs [Atom (Ch 61), Rep True 0 Space, Grp (Rep True 1 Digit)]"

text \<open>\<open>matches.group(1).strip()\<close>: \<open>None\<close> has no \<open>strip\<close>.\<close>

definition group1_strip :: "ustr \<Rightarrow> rematch \<Rightarrow> py_error + ustr" where
  "group1_strip text m =
     (case group1 text m of None \<Rightarrow> Inl AttributeError | Some s \<Rightarrow> Inr (py_strip s))"

text \<open>\<^verbatim>\<open>r'\\boxed\{(.*?)\}'\<close>\<close>

definition boxed_pattern :: regex where
  "boxed_pattern = seqs [lit (92 # asc ''boxed{''), Grp (Rep False 0 AnyCh), Atom (Ch 125)]"

text \<open>
  The twelve lead-in patterns, in the order of the source's list. Their shared pieces:
  \<open>[:\<dots>]\<close> with the ASCII and the full-width colon, \<open>\s*\<close>, \<open>(.+?)\<close>, and the two
  terminators \<^verbatim>\<open>(?:\.|$)\<close> and the one that also accepts the ideographic full stop.
\<close>

definition colons :: atom where
  "colons = OneOf [Ch 58, Ch 0xFF1A]"

definition spaces :: regex where
  "spaces = Rep True 0 Space"

definition answer_body :: regex where
  "answer_body = Grp (Rep False 1 AnyCh)"

definition stop_en :: regex where
  "stop_en = Alt (Atom (Ch 46)) Eos"

definition stop_zh :: regex where
  "stop_zh = Alt (Atom (Ch 46)) (Alt (Atom (Ch 0x3002)) Eos)"

definition leadin_patterns :: "regex list" where
  "leadin_patterns =
    [seqs [lit [0x7B54, 0x6848, 0x662F], opt (Atom colons), spaces, answer_body, stop_zh],
     seqs [lit [0x7B54, 0x6848], Atom colons, spaces, answer_body, stop_zh],
     seqs [lit [0x7B54, 0x6848, 0x4E3A], opt (Atom colons), spaces, answer_body, stop_zh],
     seqs [lit (asc ''the answer is''), opt (Atom (Ch 58)), spaces, answer_body, stop_en],
     seqs [lit (asc ''answer''), opt (Atom (Ch 58)), spaces, answer_body, stop_en],
     seqs [lit [0x56E0, 0x6B64, 0x7B54, 0x6848, 0x4E3A], opt (Atom (Ch 58)), spaces, answer_body, stop_zh],
     seqs [lit [0x6240, 0x4EE5, 0x7B54, 0x6848, 0x662F], opt (Atom (Ch 58)), spaces, answer_body, stop_zh],
     seqs [lit [0x56E0, 0x6B64, 0x7B54, 0x6848, 0x662F], opt (Atom (Ch 58)), spaces, answer_body, stop_zh],
     seqs [lit [0x6240, 0x4EE5, 0x7B54, 0x6848, 0x4E3A], opt (Atom (Ch 58)), spaces, answer_body, stop_zh],
     seqs [lit [0x6700, 0x7EC8, 0x7B54, 0x6848], opt (Atom (Ch 58)), spaces, answer_body, stop_zh],
     seqs [lit [0x6700, 0x7EC8, 0x7B54, 0x6848, 0x4E3A], opt (Atom (Ch 58)), spaces, answer_body, stop_zh],
     seqs [lit [0x6700, 0x7EC8, 0x7B54, 0x6848, 0x662F], opt (Atom (Ch 58)), spaces, answer_body, stop_zh]]"

text \<open>\<open>for p in patterns\<close>: the match of the first pattern of the list that has one.\<close>

fun first_leadin :: "ucd \<Rightarrow> ustr \<Rightarrow> regex list \<Rightarrow> rematch option" where
  "first_leadin U text [] = None"
| "first_leadin U text (p # ps) =
     (case re_search U True p text of None \<Rightarrow> first_leadin U text ps | Some m \<Rightarrow> Some m)"

text \<open>\<^verbatim>\<open>r'```output\s*\n([\d\.\+\-]+)'\<close>\<close>

definition code_output_pattern :: regex where
  "code_output_pattern =
     seqs [lit ([96, 96, 96] @ asc ''output''), spaces, Atom (Ch 10),
           Grp (Rep True 1 (OneOf [Digit, Ch 46, Ch 43, Ch 45]))]"

text \<open>\<^verbatim>\<open>r'=\s*([\d\.\+\-\<pi>pi\/\*]+)(?:\s|$|\.|\<dots>|,|\<dots>)'\<close>, the last two alternatives being the
  ideographic full stop and the full-width comma.\<close>

definition equals_pattern :: regex where
  "equals_pattern =
     seqs [Atom (Ch 61), spaces,
           Grp (Rep True 1 (OneOf [Digit, Ch 46, Ch 43, Ch 45, Ch 0x3C0, Ch 112, Ch 105, Ch 47, Ch 42])),
           Alt (Atom Space) (Alt Eos (Alt (Atom (Ch 46)) (Alt (Atom (Ch 0x3002))
             (Alt (Atom (Ch 44)) (Atom (Ch 0xFF0C))))))]"

text \<open>\<^verbatim>\<open>r'[-+]?[\d\.]+(?:\<pi>|pi)?'\<close>\<close>

definition number_pattern :: regex where
  "number_pattern =
     seqs [opt (Atom (OneOf [Ch 45, Ch 43])), Rep True 1 (OneOf [Digit, Ch 46]),
           opt (Alt (Atom (Ch 0x3C0)) (lit (asc ''pi'')))]"


text \<open>\<open>if pattern: \<dots>\<close>: the caller's pattern, tried first.\<close>

definition pattern_stage :: "pattern option \<Rightarrow> ustr \<Rightarrow> py_error + ustr option" where
  "pattern_stage pattern text =
     (case pattern of
        None \<Rightarrow> Inr None
      | Some p \<Rightarrow>
          (case p text of
             SearchRaises \<Rightarrow> Inl ReError
           | NoMatch \<Rightarrow> Inr None
           | Matched gs \<Rightarrow>
               (case gs of
                  [] \<Rightarrow> Inr None
                | None # _ \<Rightarrow> Inl AttributeError
                | Some s # _ \<Rightarrow> Inr (Some (py_strip s)))))"

text \<open>The rest of \<open>_extract_answer\<close>, from the boxed answer down to the last line.\<close>

definition extract_default :: "ucd \<Rightarrow> ustr \<Rightarrow> py_error + ustr" where
  "extract_default U text =
     (case re_search U False boxed_pattern text of
        Some m \<Rightarrow> group1_strip text m
      | None \<Rightarrow>
     (case first_leadin U text leadin_patterns of
        Some m \<Rightarrow> group1_strip text m
      | None \<Rightarrow>
     (case re_search U False code_output_pattern text of
        Some m \<Rightarrow> group1_strip text m
      | None \<Rightarrow>
     (case re_findall U False equals_pattern text of
        e # es \<Rightarrow> Inr (py_strip (last (e # es)))
      | [] \<Rightarrow>
     (case re_findall U False number_pattern text of
        n # ns \<Rightarrow> Inr (last (n # ns))
      | [] \<Rightarrow>
     (case last_line text of
        Inl err \<Rightarrow> Inl err
      | Inr l \<Rightarrow>
     (case re_findall U False number_pattern l of
        n # ns \<Rightarrow> Inr (last (n # ns))
      | [] \<Rightarrow> Inr l)))))))"

definition extract_answer :: "ucd \<Rightarrow> ustr \<Rightarrow> pattern option \<Rightarrow> py_error + ustr" where
  "extract_answer U text pattern =
     (if text = [] then Inr []
      else (case pattern_stage pattern text of
              Inl err \<Rightarrow> Inl err
            | Inr (Some s) \<Rightarrow> Inr s
            | Inr None \<Rightarrow> extract_default U text))"



section \<open>Floating-point numbers\<close>

text \<open>
  A Python \<open>float\<close> is an IEEE 754 binary64 number. A finite one is a sign, an odd
  mantissa and a binary exponent (mantissa and exponent 0 for zero), so that equal values
  are equal terms; \<open>Finite True 0 0\<close> is the negative zero.
\<close>

datatype pyfloat = Finite bool nat int | Infinite bool | NaN

function bitlen :: "nat \<Rightarrow> nat" where
  "bitlen n = (if n = 0 then 0 else Suc (bitlen (n div 2)))"
  by pat_completeness auto
termination
  by (relation "measure id") auto

function dy_norm :: "nat \<Rightarrow> int \<Rightarrow> nat \<times> int" where
  "dy_norm m e = (if m = 0 then (0, 0) else if even m then dy_norm (m div 2) (e + 1) else (m, e))"
  by pat_completeness auto
termination
  by (relation "measure fst") auto

text \<open>Rounding the fraction \<open>n / d\<close> to the nearest integer, ties to even.\<close>

definition round_half_even :: "nat \<Rightarrow> nat \<Rightarrow> nat" where
  "round_half_even n d =
     (let q = n div d; r = n mod d
      in if 2 * r < d then q else if d < 2 * r then q + 1 else if even q then q else q + 1)"

text \<open>\<open>n / d\<close> scaled by \<open>2\<close> to the power \<open>- sh\<close>, as a fraction.\<close>

definition scale2 :: "nat \<Rightarrow> nat \<Rightarrow> int \<Rightarrow> nat \<times> nat" where
  "scale2 n d sh = (if sh < 0 then (n * 2 ^ nat (- sh), d) else (n, d * 2 ^ nat sh))"

text \<open>\<open>\<lfloor>log\<^sub>2 (n / d)\<rfloor>\<close> for a positive fraction.\<close>

definition ilog2 :: "nat \<Rightarrow> nat \<Rightarrow> int" where
  "ilog2 n d =
     (let k = int (bitlen n) - int (bitlen d);
          (a, b) = scale2 n d k
      in if b \<le> a then k else k - 1)"

text \<open>
  The binary64 number nearest to \<open>\<plusminus> n / d\<close> (ties to even): 53 significant bits,
  exponents down to the subnormal range, infinity from \<open>2\<^sup>1\<^sup>0\<^sup>2\<^sup>4\<close> on. This is the
  rounding of \<open>float(str)\<close>, of arithmetic, and of \<open>int / int\<close>.
\<close>

definition to_double :: "bool \<Rightarrow> nat \<Rightarrow> nat \<Rightarrow> pyfloat" where
  "to_double s n d =
     (if n = 0 then Finite s 0 0
      else (let sh = max (ilog2 n d) (- 1022) - 52;
                (a, b) = scale2 n d sh;
                m = round_half_even a b
            in if 0 \<le> sh \<and> 2 ^ 1024 \<le> m * 2 ^ nat sh then Infinite s
               else (case dy_norm m sh of (m', e') \<Rightarrow> Finite s m' e')))"

text \<open>The magnitude of a finite number as a fraction.\<close>

definition frac_of :: "nat \<Rightarrow> int \<Rightarrow> nat \<times> nat" where
  "frac_of m e = (if 0 \<le> e then (m * 2 ^ nat e, 1) else (m, 2 ^ nat (- e)))"

text \<open>Two to an integer power, as a rational.\<close>

definition pw2 :: "int \<Rightarrow> rat" where
  "pw2 e = (if 0 \<le> e then 2 ^ nat e else 1 / 2 ^ nat (- e))"

definition value_of :: "pyfloat \<Rightarrow> rat" where
  "value_of x = (case x of
       Finite s m e \<Rightarrow> (if s then - 1 else 1) * of_nat m * (if 0 \<le> e then 2 ^ nat e else 1 / 2 ^ nat (- e))
     | _ \<Rightarrow> 0)"

text \<open>\<open>x - y\<close>, \<open>abs(x)\<close>, \<open>x < y\<close>.\<close>

definition signed_num :: "bool \<Rightarrow> nat \<Rightarrow> int \<Rightarrow> int \<Rightarrow> int" where
  "signed_num s m e e0 = (if s then - 1 else 1) * int m * 2 ^ nat (e - e0)"

definition fl_sub :: "pyfloat \<Rightarrow> pyfloat \<Rightarrow> pyfloat" where
  "fl_sub x y =
     (case (x, y) of
        (NaN, _) \<Rightarrow> NaN
      | (_, NaN) \<Rightarrow> NaN
      | (Infinite s, Infinite t) \<Rightarrow> (if s = t then NaN else Infinite s)
      | (Infinite s, Finite t m e) \<Rightarrow> Infinite s
      | (Finite s m e, Infinite t) \<Rightarrow> Infinite (\<not> t)
      | (Finite s m e, Finite t m' e') \<Rightarrow>
          (let e0 = min e e';
               diff = signed_num s m e e0 - signed_num t m' e' e0
           in if diff = 0 then Finite (m = 0 \<and> m' = 0 \<and> s \<and> \<not> t) 0 0
              else (case frac_of (nat \<bar>diff\<bar>) e0 of (n, d) \<Rightarrow> to_double (diff < 0) n d)))"

definition fl_abs :: "pyfloat \<Rightarrow> pyfloat" where
  "fl_abs x = (case x of Finite s m e \<Rightarrow> Finite False m e | Infinite s \<Rightarrow> Infinite False | NaN \<Rightarrow> NaN)"

definition fl_less :: "pyfloat \<Rightarrow> pyfloat \<Rightarrow> bool" where
  "fl_less x y =
     (case (x, y) of
        (NaN, _) \<Rightarrow> False
      | (_, NaN) \<Rightarrow> False
      | (Infinite s, Infinite t) \<Rightarrow> s \<and> \<not> t
      | (Infinite s, Finite t m e) \<Rightarrow> s
      | (Finite s m e, Infinite t) \<Rightarrow> \<not> t
      | (Finite s m e, Finite t m' e') \<Rightarrow>
          (let e0 = min e e' in signed_num s m e e0 < signed_num t m' e' e0))"

text \<open>\<open>x.is_integer()\<close> and \<open>int(x)\<close> for a finite \<open>x\<close>.\<close>

definition is_integer :: "pyfloat \<Rightarrow> bool" where
  "is_integer x = (case x of Finite s m e \<Rightarrow> 0 \<le> e | _ \<Rightarrow> False)"

definition int_of_float :: "pyfloat \<Rightarrow> int" where
  "int_of_float x = (case x of Finite s m e \<Rightarrow> (if s then - 1 else 1) * int m * 2 ^ nat e | _ \<Rightarrow> 0)"

text \<open>Decimal digits of a natural number, and \<open>str\<close> of an \<open>int\<close>.\<close>

function nat_digits :: "nat \<Rightarrow> ustr" where
  "nat_digits n = (if n < 10 then [48 + n] else nat_digits (n div 10) @ [48 + n mod 10])"
  by pat_completeness auto
termination
  by (relation "measure id") auto

definition str_int :: "int \<Rightarrow> ustr" where
  "str_int i = (if i < 0 then 45 # nat_digits (nat (- i)) else nat_digits (nat i))"

text \<open>
  \<open>round(x, 5)\<close>: infinities and NaN round to themselves; a finite \<open>x\<close> is rounded, as
  the exact binary value it is, to five decimal places (ties to even), and the decimal is
  converted back. The sign of \<open>x\<close> is kept, also on a zero result.
\<close>

definition round5 :: "pyfloat \<Rightarrow> pyfloat" where
  "round5 x =
     (case x of
        Finite s m e \<Rightarrow>
          (case frac_of m e of (n, d) \<Rightarrow> to_double s (round_half_even (n * 100000) d) 100000)
      | _ \<Rightarrow> x)"

text \<open>
  \<open>repr\<close> of a float (which \<open>str\<close> uses): the shortest digit string that converts back to
  the same number, and among those of that length the nearest to it.
  \<open>ilog10 n d\<close> is \<open>\<lfloor>log\<^sub>1\<^sub>0 (n / d)\<rfloor>\<close>; \<open>scale10 n d k\<close> is \<open>n / d\<close> times ten to the \<open>- k\<close>.
\<close>

definition scale10 :: "nat \<Rightarrow> nat \<Rightarrow> int \<Rightarrow> nat \<times> nat" where
  "scale10 n d k = (if k < 0 then (n * 10 ^ nat (- k), d) else (n, d * 10 ^ nat k))"

definition ilog10 :: "nat \<Rightarrow> nat \<Rightarrow> int" where
  "ilog10 n d =
     (let k = int (length (nat_digits n)) - int (length (nat_digits d));
          (a, b) = scale10 n d k
      in if b \<le> a then k else k - 1)"

text \<open>
  The candidates with \<open>nd\<close> significant digits for the number \<open>x\<close> of magnitude \<open>n / d\<close>
  and decimal point position \<open>decpt\<close>: the two \<open>nd\<close>-digit decimals around it; those that
  convert back to \<open>x\<close> are kept, the nearer one first.
\<close>

definition back_to :: "pyfloat \<Rightarrow> bool \<Rightarrow> nat \<Rightarrow> int \<Rightarrow> bool" where
  "back_to x s c k = (case scale10 c 1 (- k) of (a, b) \<Rightarrow> to_double s a b = x)"

definition candidates :: "pyfloat \<Rightarrow> bool \<Rightarrow> nat \<Rightarrow> nat \<Rightarrow> int \<Rightarrow> nat \<Rightarrow> nat list" where
  "candidates x s n d decpt nd =
     (case scale10 n d (decpt - int nd) of (a, b) \<Rightarrow>
        (let lo = a div b; r = a mod b;
             order = (if 2 * r < b \<or> (2 * r = b \<and> even lo) then [lo, lo + 1] else [lo + 1, lo])
         in filter (\<lambda>c. back_to x s c (decpt - int nd)) order))"

fun shortest :: "pyfloat \<Rightarrow> bool \<Rightarrow> nat \<Rightarrow> nat \<Rightarrow> int \<Rightarrow> nat list \<Rightarrow> (nat \<times> nat) option" where
  "shortest x s n d decpt [] = None"
| "shortest x s n d decpt (nd # nds) =
     (case candidates x s n d decpt nd of
        [] \<Rightarrow> shortest x s n d decpt nds
      | c # _ \<Rightarrow> Some (c, nd))"

text \<open>
  The digits of the shortest representation without trailing zeros, and the position of
  the decimal point: the value is \<open>0.d\<^sub>1d\<^sub>2\<dots> \<times> 10\<^sup>d\<^sup>e\<^sup>c\<^sup>p\<^sup>t\<close>.
\<close>

definition repr_digits :: "pyfloat \<Rightarrow> (ustr \<times> int) option" where
  "repr_digits x =
     (case x of
        Finite s m e \<Rightarrow>
          (case frac_of m e of (n, d) \<Rightarrow>
             (let decpt = ilog10 n d + 1 in
              (case shortest x s n d decpt [1, 2, 3, 4, 5, 6, 7, 8, 9, 10, 11, 12, 13, 14, 15, 16, 17] of
                 None \<Rightarrow> None
               | Some (c, nd) \<Rightarrow>
                   (let ds = nat_digits c
                    in Some (py_rstrip [48] ds, decpt + int (length ds) - int nd)))))
      | _ \<Rightarrow> None)"

text \<open>
  The format of \<open>repr\<close>: exponent notation when the decimal point position is above 16
  or below \<open>-3\<close>, positional notation with at least one digit after the point otherwise.
\<close>

definition exp_digits :: "int \<Rightarrow> ustr" where
  "exp_digits k =
     (if k < 0 then 45 else 43) #
     (let ds = nat_digits (nat \<bar>k\<bar>) in if length ds < 2 then 48 # ds else ds)"

definition format_repr :: "ustr \<Rightarrow> int \<Rightarrow> ustr" where
  "format_repr ds decpt =
     (if 16 < decpt \<or> decpt < - 3 then
        take 1 ds @ (if 1 < length ds then 46 # drop 1 ds else []) @ [101] @ exp_digits (decpt - 1)
      else if decpt \<le> 0 then
        [48, 46] @ replicate (nat (- decpt)) 48 @ ds
      else if int (length ds) \<le> decpt then
        ds @ replicate (nat decpt - length ds) 48 @ [46, 48]
      else take (nat decpt) ds @ [46] @ drop (nat decpt) ds)"

definition py_repr :: "pyfloat \<Rightarrow> ustr" where
  "py_repr x =
     (case x of
        NaN \<Rightarrow> asc ''nan''
      | Infinite s \<Rightarrow> (if s then asc ''-inf'' else asc ''inf'')
      | Finite s m e \<Rightarrow>
          (if s then [45] else []) @
          (if m = 0 then asc ''0.0''
           else (case repr_digits x of None \<Rightarrow> [] | Some (ds, decpt) \<Rightarrow> format_repr ds decpt)))"

text \<open>
  \<open>float(s)\<close> on a string. Characters beyond ASCII are first replaced: a space by an
  ASCII space, a decimal digit by its ASCII digit, anything else by \<open>?\<close>. Then leading
  and trailing ASCII white space is dropped, underscores are accepted between two digits
  and removed, and what remains must be, after an optional sign, \<open>inf\<close>, \<open>infinity\<close> or
  \<open>nan\<close> in any case, or a decimal number with an optional exponent. \<open>None\<close> is
  \<open>ValueError\<close>.
\<close>

definition to_ascii :: "ucd \<Rightarrow> nat \<Rightarrow> nat" where
  "to_ascii U c =
     (if c < 127 then c
      else if is_space c then 32
      else (case dec_digit U c of Some v \<Rightarrow> 48 + v | None \<Rightarrow> 63))"

definition c_space :: "nat \<Rightarrow> bool" where
  "c_space c \<longleftrightarrow> (9 \<le> c \<and> c \<le> 13) \<or> c = 32"

definition is_dig :: "nat \<Rightarrow> bool" where
  "is_dig c \<longleftrightarrow> 48 \<le> c \<and> c \<le> 57"

fun strip_underscores :: "nat \<Rightarrow> ustr \<Rightarrow> ustr option" where
  "strip_underscores prev [] = (if prev = 95 then None else Some [])"
| "strip_underscores prev (c # cs) =
     (if c = 95 then (if is_dig prev then strip_underscores c cs else None)
      else if prev = 95 \<and> \<not> is_dig c then None
      else map_option ((#) c) (strip_underscores c cs))"

definition digits_val :: "ustr \<Rightarrow> nat" where
  "digits_val ds = foldl (\<lambda>a c. 10 * a + (c - 48)) 0 ds"

definition split_sign :: "ustr \<Rightarrow> bool \<times> ustr" where
  "split_sign s = (case s of [] \<Rightarrow> (False, []) | c # r \<Rightarrow>
      (if c = 45 then (True, r) else if c = 43 then (False, r) else (False, s)))"

definition decimal_value :: "bool \<Rightarrow> ustr \<Rightarrow> ustr \<Rightarrow> int \<Rightarrow> pyfloat" where
  "decimal_value s ip fp ex =
     (case scale10 (digits_val (ip @ fp)) 1 (int (length fp) - ex) of (a, b) \<Rightarrow> to_double s a b)"

definition parse_exponent :: "ustr \<Rightarrow> int option" where
  "parse_exponent r =
     (case split_sign r of (neg, r') \<Rightarrow>
        (if r' = [] \<or> \<not> list_all is_dig r' then None
         else Some ((if neg then - 1 else 1) * int (digits_val r'))))"

definition parse_float :: "ustr \<Rightarrow> pyfloat option" where
  "parse_float s =
     (case split_sign s of (neg, r) \<Rightarrow>
        (let lr = map lower_latin r in
         if lr = asc ''inf'' \<or> lr = asc ''infinity'' then Some (Infinite neg)
         else if lr = asc ''nan'' then Some NaN
         else
           (let ip = takeWhile is_dig r; r1 = dropWhile is_dig r;
                fp = (case r1 of [] \<Rightarrow> [] | c # r' \<Rightarrow> if c = 46 then takeWhile is_dig r' else []);
                r2 = (case r1 of [] \<Rightarrow> [] | c # r' \<Rightarrow> if c = 46 then dropWhile is_dig r' else r1)
            in if ip = [] \<and> fp = [] then None
               else (case r2 of
                       [] \<Rightarrow> Some (decimal_value neg ip fp 0)
                     | c # r3 \<Rightarrow>
                         (if c = 101 \<or> c = 69
                          then map_option (decimal_value neg ip fp) (parse_exponent r3)
                          else None)))))"

definition py_float :: "ucd \<Rightarrow> ustr \<Rightarrow> pyfloat option" where
  "py_float U s =
     (let t = map (to_ascii U) s;
          t' = rev (dropWhile c_space (rev (dropWhile c_space t)))
      in (case (if 95 \<in> set t' then strip_underscores 0 t' else Some t') of
            None \<Rightarrow> None
          | Some u \<Rightarrow> parse_float u))"

section \<open>Answer normalization (src/metrics/accuracy.py, \<open>_normalize_answer\<close>)\<close>

text \<open>
  The class of characters that are removed. The source writes the pattern as two adjacent
  string literals, which Python joins; the class holds the four corner brackets, the
  ASCII round, square and curly brackets, and the ASCII double and single quote (the
  double quote three times).
\<close>

definition strip_chars_pattern :: regex where
  "strip_chars_pattern =
     Atom (OneOf [Ch 0x300C, Ch 0x300D, Ch 0x300E, Ch 0x300F, Ch 40, Ch 41, Ch 91, Ch 93,
                  Ch 123, Ch 125, Ch 34, Ch 39, Ch 34, Ch 34])"

text \<open>\<^verbatim>\<open>r'\s+'\<close> and \<^verbatim>\<open>r'^[-+]?[\d\.]+$'\<close>\<close>

definition space_run_pattern :: regex where
  "space_run_pattern = Rep True 1 Space"

definition numeric_pattern :: regex where
  "numeric_pattern =
     seqs [Bos, opt (Atom (OneOf [Ch 45, Ch 43])), Rep True 1 (OneOf [Digit, Ch 46]), Eos]"

text \<open>
  The chain of \<open>replace\<close> calls: multiplication and division sign, full-width
  parentheses, full-width comma, ideographic full stop.
\<close>

definition replace_symbols :: "ustr \<Rightarrow> ustr" where
  "replace_symbols answer =
     py_replace [0x3002] [46]
       (py_replace [0xFF0C] [44]
         (py_replace [0xFF09] [41]
           (py_replace [0xFF08] [40]
             (py_replace [247] [47]
               (py_replace [215] [42] answer)))))"

text \<open>
  The \<open>try\<close> block: \<open>float\<close> may raise, and the bare \<open>except\<close> then leaves the answer
  as it is.
\<close>

definition reformat_number :: "ucd \<Rightarrow> ustr \<Rightarrow> ustr" where
  "reformat_number U answer =
     (case py_float U answer of
        None \<Rightarrow> answer
      | Some num \<Rightarrow>
          (if is_integer num then str_int (int_of_float num)
           else py_rstrip [46] (py_rstrip [48] (py_repr (round5 num)))))"

text \<open>The answer after the first four steps, before the numeric step.\<close>

definition clean_answer :: "ucd \<Rightarrow> ustr \<Rightarrow> ustr" where
  "clean_answer U answer =
     replace_symbols
       (py_strip (re_sub U False space_run_pattern [32]
          (str_lower U (re_sub U False strip_chars_pattern [] answer))))"

definition normalize_answer :: "ucd \<Rightarrow> ustr \<Rightarrow> ustr" where
  "normalize_answer U answer =
     (if answer = [] then []
      else (let a = clean_answer U answer
            in if re_match U False numeric_pattern a \<noteq> None then reformat_number U a else a))"

section \<open>Scoring (src/metrics/accuracy.py, \<open>compute\<close>)\<close>

text \<open>
  The comparison of one extracted prediction with one reference: equal strings; else both
  parsed as floats, after \<open>\<pi>\<close> has become \<open>pi\<close> and \<open>pi\<close> has become \<open>3.14159\<close>, and
  compared with tolerance \<open>1e-5\<close>; else, when \<open>float\<close> raises on either, containment
  of one string in the other.
\<close>

definition pi_subst :: "ustr \<Rightarrow> ustr" where
  "pi_subst s = py_replace (asc ''pi'') (asc ''3.14159'') (py_replace [0x3C0] (asc ''pi'') s)"

definition equivalent :: "ucd \<Rightarrow> ustr \<Rightarrow> ustr \<Rightarrow> bool" where
  "equivalent U pred ref =
     (if pred = ref then True
      else (case py_float U (pi_subst pred) of
              None \<Rightarrow> contains pred ref \<or> contains ref pred
            | Some pred_num \<Rightarrow>
                (case py_float U (pi_subst ref) of
                   None \<Rightarrow> contains pred ref \<or> contains ref pred
                 | Some ref_num \<Rightarrow>
                     fl_less (fl_abs (fl_sub pred_num ref_num)) (to_double False 1 100000))))"

text \<open>
  The keyword arguments. \<open>debug\<close> only switches printing on, which the model leaves out.
\<close>

record options =
  answer_pattern :: "pattern option"
  normalize :: bool
  debug :: bool

definition default_options :: options where
  "default_options = \<lparr> answer_pattern = None, normalize = True, debug = False \<rparr>"

text \<open>
  The first loop: extraction (and normalization) of every prediction, in order; the first
  exception ends the call.
\<close>

fun extract_predictions :: "ucd \<Rightarrow> options \<Rightarrow> ustr list \<Rightarrow> py_error + ustr list" where
  "extract_predictions U opts [] = Inr []"
| "extract_predictions U opts (pred # preds) =
     (case extract_answer U pred (answer_pattern opts) of
        Inl err \<Rightarrow> Inl err
      | Inr ex \<Rightarrow>
          (case extract_predictions U opts preds of
             Inl err \<Rightarrow> Inl err
           | Inr exs \<Rightarrow> Inr ((if normalize opts then normalize_answer U ex else ex) # exs)))"

text \<open>The second loop.\<close>

definition normalize_references :: "ucd \<Rightarrow> options \<Rightarrow> ustr list \<Rightarrow> ustr list" where
  "normalize_references U opts refs =
     map (\<lambda>ref. if normalize opts then normalize_answer U ref else ref) refs"

record verdict =
  index :: nat
  prediction :: ustr
  extracted :: ustr
  reference :: ustr
  normalized_reference :: ustr
  is_correct :: bool

text \<open>
  The third loop, over \<open>enumerate(zip(extracted_predictions, normalized_references))\<close>:
  its state is the counter \<open>correct\<close> and the list \<open>details\<close>; \<open>i\<close> is the index of the
  pair at the head of \<open>pairs\<close>.
\<close>

fun score_loop ::
  "ucd \<Rightarrow> ustr list \<Rightarrow> ustr list \<Rightarrow> ustr list \<Rightarrow> ustr list \<Rightarrow> nat \<Rightarrow> (ustr \<times> ustr) list
     \<Rightarrow> nat \<times> verdict list \<Rightarrow> nat \<times> verdict list" where
  "score_loop U ps eps rs nrs i [] st = st"
| "score_loop U ps eps rs nrs i ((pred, ref) # pairs) (cnt, ds) =
     (let ok = equivalent U pred ref
      in score_loop U ps eps rs nrs (Suc i) pairs
           (if ok then cnt + 1 else cnt,
            ds @ [\<lparr> index = i, prediction = ps ! i, extracted = eps ! i, reference = rs ! i,
                    normalized_reference = nrs ! i, is_correct = ok \<rparr>]))"

text \<open>
  \<open>score\<close> is the float \<open>correct / len(predictions)\<close>, the quotient of two integers
  rounded to the nearest float, or the integer \<open>0\<close> for no predictions.
\<close>

datatype pynum = PyInt int | PyFloat pyfloat

definition num_value :: "pynum \<Rightarrow> rat" where
  "num_value x = (case x of PyInt i \<Rightarrow> of_int i | PyFloat f \<Rightarrow> value_of f)"

record report =
  score :: pynum
  correct :: nat
  total :: nat
  details :: "verdict list"

definition compute :: "ucd \<Rightarrow> ustr list \<Rightarrow> ustr list \<Rightarrow> options \<Rightarrow> py_error + report" where
  "compute U predictions references opts =
     (if length predictions \<noteq> length references then Inl ValueError
      else (case extract_predictions U opts predictions of
              Inl err \<Rightarrow> Inl err
            | Inr extracted_predictions \<Rightarrow>
                (let normalized_references = normalize_references U opts references;
                     (cnt, ds) = score_loop U predictions extracted_predictions references
                                   normalized_references 0
                                   (zip extracted_predictions normalized_references) (0, [])
                 in Inr \<lparr> score = (if predictions \<noteq> [] then PyFloat (to_double False cnt (length predictions))
                                     else PyInt 0),
                          correct = cnt,
                          total = length predictions,
                          details = ds \<rparr>)))"

section \<open>Properties\<close>

subsection \<open>Evaluation on concrete inputs\<close>

text \<open>
  The recursive equations of the numeric helpers are taken out of the simplifier and
  replaced by their instances on numerals, so that they unfold on concrete arguments only.
\<close>

declare bitlen.simps [simp del] dy_norm.simps [simp del] nat_digits.simps [simp del]
  findall_from.simps [simp del] sub_from.simps [simp del]

lemma bitlen_eval:
  "bitlen 0 = 0" "bitlen (Suc 0) = Suc 0" "bitlen (numeral k) = Suc (bitlen (numeral k div 2))"
  by (simp_all add: bitlen.simps)

lemma dy_norm_eval:
  "dy_norm 0 e = (0, 0)" "dy_norm (Suc 0) e = (Suc 0, e)"
  "dy_norm (numeral k) e =
     (if even (numeral k :: nat) then dy_norm (numeral k div 2) (e + 1) else (numeral k, e))"
  by (simp_all add: dy_norm.simps)

lemma nat_digits_eval:
  "nat_digits 0 = [48]" "nat_digits (Suc 0) = [49]"
  "nat_digits (numeral k) =
     (if (numeral k :: nat) < 10 then [48 + numeral k]
      else nat_digits (numeral k div 10) @ [48 + numeral k mod 10])"
  by (simp_all add: nat_digits.simps)

lemma to_double_zero: "to_double s 0 d = Finite s 0 0"
  by (simp add: to_double_def)

lemmas to_double_eval =
  to_double_zero
  to_double_def [of _ "numeral n" "numeral d"] to_double_def [of _ "numeral n" "Suc 0"]
  to_double_def [of _ "Suc 0" "numeral d"] to_double_def [of _ "Suc 0" "Suc 0"]
  for n d

lemmas string_eval =
  asc_def py_strip_def is_space_def py_last_def last_line_def ucd_basic_def lower_latin_def
  py_rstrip_def

lemmas regex_eval =
  re_findall_def re_search_def re_match_def re_sub_def match_at_def run_len_def
  match_item_def group0_def group1_def slice_def seqs_def opt_def lit_def
  findall_from.simps sub_from.simps

lemmas float_eval =
  py_float_def to_ascii_def c_space_def is_dig_def parse_float_def split_sign_def
  decimal_value_def parse_exponent_def digits_val_def scale10_def to_double_eval ilog2_def
  scale2_def round_half_even_def frac_of_def fl_sub_def fl_abs_def fl_less_def signed_num_def
  is_integer_def int_of_float_def str_int_def round5_def ilog10_def back_to_def
  candidates_def repr_digits_def exp_digits_def format_repr_def py_repr_def
  bitlen_eval dy_norm_eval nat_digits_eval

lemmas extract_eval =
  extract_answer_def pattern_stage_def extract_default_def group1_strip_def boxed_pattern_def
  leadin_patterns_def colons_def spaces_def answer_body_def stop_en_def stop_zh_def
  code_output_pattern_def equals_pattern_def number_pattern_def

lemmas normalize_eval =
  clean_answer_def strip_chars_pattern_def space_run_pattern_def
  numeric_pattern_def replace_symbols_def

subsection \<open>Strings and lines\<close>

lemma py_split_not_Nil: "py_split sep s \<noteq> []"
  by (induction sep s rule: py_split.induct) (auto split: list.splits)

lemma py_last_total: "xs \<noteq> [] \<Longrightarrow> \<exists>x. py_last xs = Inr x"
  by (cases "rev xs") (auto simp: py_last_def)

lemma last_line_total: "\<exists>l. last_line t = Inr l"
proof -
  obtain x where "py_last (py_split [10] (py_strip t)) = Inr x"
    using py_last_total [OF py_split_not_Nil] by blast
  then show ?thesis by (simp add: last_line_def)
qed

lemma contains_Nil [simp]: "contains [] s"
  by (cases s) auto

subsection \<open>The dataset loader's reference answer\<close>

text \<open>
  C9. The loader's \<open>_extract_final_answer\<close> on the line \<open>The answer is 42.\<close> returns
  \<open>42.\<close>, the number together with the full stop that ends the sentence: the pattern
  \<^verbatim>\<open>-?\d+\.?\d*\<close> takes the full stop as part of the token, where the comment above it
  says that a following full stop is removed. On \<open>#### 1,234\<close>, with no \<open>answer is\<close>, it
  returns \<open>234\<close>: the commas are removed in the \<open>answer is\<close> branch only, and the search
  for the last number of the text stops at the comma.
\<close>

theorem final_answer_keeps_full_stop:
  "extract_final_answer ucd_basic (PyStr (asc ''The answer is 42.'')) = PyStr (asc ''42.'') \<and>
   extract_final_answer ucd_basic (PyStr (asc ''6 * 7 = 42'' @ [10] @ asc ''#### 1,234''))
     = PyStr (asc ''234'')"
  by (simp add: extract_final_answer_def extract_final_body_def string_eval regex_eval
        answer_is_number_def gsm_number_re_def)

subsection \<open>Capturing groups\<close>

lemma rmatch_group_kept:
  "(j, g') \<in> set (rmatch U ic txt r (i, g)) \<Longrightarrow> g \<noteq> None \<Longrightarrow> g' \<noteq> None"
proof (induction r arbitrary: i g j g')
  case (Seq r1 r2)
  from Seq.prems(1) obtain k h where
    a: "(k, h) \<in> set (rmatch U ic txt r1 (i, g))" and b: "(j, g') \<in> set (rmatch U ic txt r2 (k, h))"
    by auto
  from Seq.IH(1) [OF a Seq.prems(2)] have "h \<noteq> None" .
  from Seq.IH(2) [OF b this] show ?case .
next
  case (Rep x1 x2 x3)
  then show ?case by (auto simp: Let_def split: if_splits)
qed (auto split: if_splits)

lemma rmatch_closes_group:
  "closes_group r \<Longrightarrow> (j, g') \<in> set (rmatch U ic txt r (i, g)) \<Longrightarrow> g' \<noteq> None"
proof (induction r arbitrary: i g j g')
  case (Seq r1 r2)
  from Seq.prems(2) obtain k h where
    a: "(k, h) \<in> set (rmatch U ic txt r1 (i, g))" and b: "(j, g') \<in> set (rmatch U ic txt r2 (k, h))"
    by auto
  show ?case
  proof (cases "closes_group r1")
    case True
    from Seq.IH(1) [OF True a] have "h \<noteq> None" .
    with b show ?thesis by (rule rmatch_group_kept)
  next
    case False
    with Seq.prems(1) have "closes_group r2" by simp
    from Seq.IH(2) [OF this b] show ?thesis .
  qed
qed auto

lemma match_at_closes_group:
  assumes "closes_group r" and "match_at U ic r txt i = Some m"
  shows "\<exists>s. group1 txt m = Some s"
proof -
  from assms(2) obtain j g rest where
    r: "rmatch U ic txt r (i, None) = (j, g) # rest" and m: "m = (i, j, g)"
    by (auto simp: match_at_def split: list.splits)
  from r have "(j, g) \<in> set (rmatch U ic txt r (i, None))" by simp
  from rmatch_closes_group [OF assms(1) this] m show ?thesis
    by (auto simp: group1_def)
qed

lemma first_match_closes_group:
  "closes_group r \<Longrightarrow> first_match U ic r txt is = Some m \<Longrightarrow> \<exists>s. group1 txt m = Some s"
  by (induction "is") (auto split: option.splits dest: match_at_closes_group)

lemma re_search_closes_group:
  "closes_group r \<Longrightarrow> re_search U ic r txt = Some m \<Longrightarrow> \<exists>s. group1_strip txt m = Inr s"
  using first_match_closes_group [of r U ic "txt" "[0..<Suc (length txt)]" m]
  by (auto simp: re_search_def group1_strip_def)

lemma first_leadin_closes_group:
  "\<forall>p \<in> set ps. closes_group p \<Longrightarrow> first_leadin U txt ps = Some m \<Longrightarrow>
     \<exists>s. group1_strip txt m = Inr s"
  by (induction ps) (auto split: option.splits dest: re_search_closes_group)

lemma closes_boxed: "closes_group boxed_pattern"
  by (simp add: boxed_pattern_def seqs_def)

lemma closes_code_output: "closes_group code_output_pattern"
  by (simp add: code_output_pattern_def seqs_def)

lemma closes_leadin: "\<forall>p \<in> set leadin_patterns. closes_group p"
  by (simp add: leadin_patterns_def seqs_def answer_body_def)

subsection \<open>Exceptions of the extraction\<close>

lemma extract_default_total: "\<exists>s. extract_default U text = Inr s"
proof -
  obtain l where l: "last_line text = Inr l"
    using last_line_total by blast
  show ?thesis
    using l re_search_closes_group [OF closes_boxed, of U False "text"]
      re_search_closes_group [OF closes_code_output, of U False "text"]
      first_leadin_closes_group [OF closes_leadin, of U "text"]
    by (auto simp: extract_default_def split: option.splits list.splits)
qed

lemma extract_answer_no_pattern_total: "\<exists>s. extract_answer U text None = Inr s"
  using extract_default_total [of U "text"]
  by (auto simp: extract_answer_def pattern_stage_def)

lemma extract_predictions_raises:
  "pred \<in> set predictions \<Longrightarrow> extract_answer U pred (answer_pattern opts) = Inl err \<Longrightarrow>
     \<exists>e. extract_predictions U opts predictions = Inl e"
  by (induction predictions) (auto split: sum.splits)

lemma extract_predictions_no_pattern:
  "answer_pattern opts = None \<Longrightarrow> \<exists>exs. extract_predictions U opts predictions = Inr exs"
proof (induction predictions)
  case Nil
  show ?case by simp
next
  case (Cons pred preds)
  obtain s where "extract_answer U pred None = Inr s"
    using extract_answer_no_pattern_total by blast
  with Cons show ?case by auto
qed

lemma extract_predictions_always_raising:
  "answer_pattern opts = Some p \<Longrightarrow> \<forall>t. p t = SearchRaises \<Longrightarrow>
     \<exists>pred \<in> set predictions. pred \<noteq> [] \<Longrightarrow>
     extract_predictions U opts predictions = Inl ReError"
proof (induction predictions)
  case Nil
  then show ?case by simp
next
  case (Cons pred preds)
  show ?case
  proof (cases "pred = []")
    case True
    with Cons.prems have "\<exists>q \<in> set preds. q \<noteq> []" by auto
    from Cons.IH [OF Cons.prems(1,2) this] True show ?thesis
      by (simp add: extract_answer_def)
  next
    case False
    with Cons.prems(1,2) show ?thesis
      by (simp add: extract_answer_def pattern_stage_def)
  qed
qed

text \<open>
  C3, as the code has it. The claim that extraction never lets an exception out fails:
  \<open>_extract_answer\<close> has no \<open>try\<close>, and neither has the loop of \<open>compute\<close> around it.
  The first theorem is the run of a malformed pattern. The second states what holds
  instead. Without a caller pattern, extraction returns a string for every text. A caller
  pattern on which \<open>re.search\<close> raises makes the extraction of every non-empty text raise
  that error, and \<open>compute\<close> over predictions of which one is non-empty raises it as
  well. A caller pattern that finds nothing, has no group, or matches with a first group
  that took part in the match, makes extraction return a string.
\<close>

theorem malformed_pattern_counterexample:
  "extract_answer ucd_basic (asc ''The answer is 4.'') (Some malformed_pattern) = Inl ReError \<and>
   compute ucd_basic [asc ''The answer is 4.''] [asc ''4'']
     (default_options \<lparr> answer_pattern := Some malformed_pattern \<rparr>) = Inl ReError"
  by (simp add: extract_answer_def pattern_stage_def malformed_pattern_def compute_def
        default_options_def asc_def)

theorem pattern_error_propagates:
  "(\<exists>s. extract_answer U text None = Inr s) \<and>
   (text \<noteq> [] \<longrightarrow> p text = SearchRaises \<longrightarrow> extract_answer U text (Some p) = Inl ReError) \<and>
   (p text = NoMatch \<or> p text = Matched [] \<or> p text = Matched (Some g # gs) \<longrightarrow>
      (\<exists>s. extract_answer U text (Some p) = Inr s)) \<and>
   (length predictions = length references \<longrightarrow> answer_pattern opts = Some p \<longrightarrow>
      (\<forall>t. p t = SearchRaises) \<longrightarrow> (\<exists>pred \<in> set predictions. pred \<noteq> []) \<longrightarrow>
      compute U predictions references opts = Inl ReError)"
proof -
  have a: "\<exists>s. extract_answer U text None = Inr s"
    by (rule extract_answer_no_pattern_total)
  have b: "text \<noteq> [] \<Longrightarrow> p text = SearchRaises \<Longrightarrow>
             extract_answer U text (Some p) = Inl ReError"
    by (simp add: extract_answer_def pattern_stage_def)
  have c: "p text = NoMatch \<or> p text = Matched [] \<or> p text = Matched (Some g # gs) \<Longrightarrow>
             \<exists>s. extract_answer U text (Some p) = Inr s"
    using extract_default_total [of U "text"]
    by (auto simp: extract_answer_def pattern_stage_def)
  have d: "length predictions = length references \<Longrightarrow> answer_pattern opts = Some p \<Longrightarrow>
      \<forall>t. p t = SearchRaises \<Longrightarrow> \<exists>pred \<in> set predictions. pred \<noteq> [] \<Longrightarrow>
      compute U predictions references opts = Inl ReError"
    using extract_predictions_always_raising [of opts p predictions U]
    by (simp add: compute_def)
  from a b c d show ?thesis by blast
qed

lemma equals_digits_found:
  "compiled ucd_basic equals_digits_pattern (asc ''so x = 5 now'') = Matched [Some (asc ''5'')]"
  by (simp add: compiled_def equals_digits_pattern_def string_eval regex_eval)

theorem pattern_error_propagates_witness:
  "extract_answer ucd_basic (asc ''so x = 5 now'') (Some malformed_pattern) = Inl ReError \<and>
   extract_answer ucd_basic (asc ''so x = 5 now'')
     (Some (compiled ucd_basic equals_digits_pattern)) = Inr (asc ''5'') \<and>
   compute ucd_basic [[], asc ''so x = 5 now''] [asc ''1'', asc ''5'']
     (default_options \<lparr> answer_pattern := Some malformed_pattern \<rparr>) = Inl ReError"
  using pattern_error_propagates
    [of ucd_basic "asc ''so x = 5 now''" malformed_pattern "asc ''5''" "[]"
        "[[], asc ''so x = 5 now'']" "[asc ''1'', asc ''5'']"
        "default_options \<lparr> answer_pattern := Some malformed_pattern \<rparr>"]
    pattern_error_propagates
    [of ucd_basic "asc ''so x = 5 now''" "compiled ucd_basic equals_digits_pattern"
        "asc ''5''" "[]" "[]" "[]" default_options]
    equals_digits_found
  by (simp add: malformed_pattern_def asc_def extract_answer_def pattern_stage_def
        py_strip_def is_space_def)

subsection \<open>Length mismatch\<close>

text \<open>
  C2. When the two input sequences differ in length, \<open>compute\<close> raises the
  length-mismatch \<open>ValueError\<close>; the result is the exception and no report.
\<close>

theorem compute_length_mismatch:
  "length predictions \<noteq> length references \<Longrightarrow>
     compute U predictions references opts = Inl ValueError"
  by (simp add: compute_def)

theorem compute_length_mismatch_witness:
  "length [asc ''The answer is 4.'', asc ''5''] \<noteq> length [asc ''4''] \<and>
   compute ucd_basic [asc ''The answer is 4.'', asc ''5''] [asc ''4''] default_options
     = Inl ValueError"
  using compute_length_mismatch
    [of "[asc ''The answer is 4.'', asc ''5'']" "[asc ''4'']" ucd_basic default_options]
  by simp

subsection \<open>The empty prediction\<close>

lemma py_float_Nil [simp]: "py_float U [] = None"
  by (simp add: py_float_def parse_float_def split_sign_def asc_def)

lemma equivalent_Nil: "equivalent U [] r"
  by (simp add: equivalent_def pi_subst_def)

lemma normalize_answer_Nil [simp]: "normalize_answer U [] = []"
  by (simp add: normalize_answer_def)

lemma extract_answer_Nil [simp]: "extract_answer U [] pat = Inr []"
  by (simp add: extract_answer_def)

text \<open>
  C10. The empty string as extracted prediction is equivalent to every reference: it
  equals the empty reference, and for any other reference \<open>float\<close> raises on it and the
  empty string is contained in the reference. So \<open>compute([""], [r])\<close> reports one
  correct item out of one, for every reference \<open>r\<close> and all options.
\<close>

theorem empty_prediction_correct:
  "equivalent U [] r \<and>
   (\<exists>rep. compute U [[]] [r] opts = Inr rep \<and> correct rep = 1 \<and> total rep = 1 \<and>
          map is_correct (details rep) = [True])"
  by (simp add: equivalent_Nil compute_def normalize_references_def Let_def)

theorem empty_prediction_correct_witness:
  "equivalent ucd_basic [] (asc ''42'') \<and>
   (\<exists>rep. compute ucd_basic [[]] [asc ''42''] default_options = Inr rep \<and> correct rep = 1 \<and>
          total rep = 1 \<and> map is_correct (details rep) = [True])"
  using empty_prediction_correct [of ucd_basic "asc ''42''" default_options]
  by simp

subsection \<open>Number tokens\<close>




lemma rev_upt_not_Nil: "n \<le> k \<Longrightarrow> rev [n..<Suc k] \<noteq> []"
  by simp









subsection \<open>The boxed answer\<close>
















subsection \<open>Runs on numbers\<close>

lemma normalize_numeric:
  "answer \<noteq> [] \<Longrightarrow> clean_answer U answer = a \<Longrightarrow>
   re_match U False numeric_pattern a \<noteq> None \<Longrightarrow> py_float U a = Some num \<Longrightarrow>
     normalize_answer U answer =
       (if is_integer num then str_int (int_of_float num)
        else py_rstrip [46] (py_rstrip [48] (py_repr (round5 num))))"
  by (simp add: normalize_answer_def reformat_number_def)

lemma normalize_not_numeric:
  "answer \<noteq> [] \<Longrightarrow> clean_answer U answer = a \<Longrightarrow>
   re_match U False numeric_pattern a = None \<Longrightarrow> normalize_answer U answer = a"
  by (simp add: normalize_answer_def)




lemma run_3_14:
  "clean_answer ucd_basic (asc ''3.14'') = asc ''3.14''"
  "re_match ucd_basic False numeric_pattern (asc ''3.14'') = Some (0, 4, None)"
  "py_float ucd_basic (asc ''3.14'') = Some (Finite False 7070651414971679 (- 51))"
  "round5 (Finite False 7070651414971679 (- 51)) = Finite False 7070651414971679 (- 51)"
  by (simp_all add: normalize_eval string_eval regex_eval float_eval)

lemma repr_3_14:
  "py_repr (Finite False 7070651414971679 (- 51)) = asc ''3.14''"
  by (simp add: string_eval float_eval)

lemma run_pi:
  "clean_answer ucd_basic [0x3C0] = [0x3C0]"
  "re_match ucd_basic False numeric_pattern [0x3C0] = None"
  "pi_subst [0x3C0] = asc ''3.14159''"
  "pi_subst (asc ''3.14'') = asc ''3.14''"
  "pi_subst (asc ''3.14159'') = asc ''3.14159''"
  "py_float ucd_basic (asc ''3.14159'') = Some (Finite False 3537115888337719 (- 50))"
  by (simp_all add: normalize_eval string_eval regex_eval float_eval pi_subst_def)

lemma tolerance:
  "to_double False 1 100000 = Finite False 5902958103587057 (- 69)"
  "fl_abs (fl_sub (Finite False 7070651414971679 (- 51)) (Finite False 3537115888337719 (- 50)))
     = Finite False 3580361703759 (- 51)"
  "\<not> fl_less (Finite False 3580361703759 (- 51)) (Finite False 5902958103587057 (- 69))"
  "fl_abs (fl_sub (Finite False 3537115888337719 (- 50)) (Finite False 3537115888337719 (- 50)))
     = Finite False 0 0"
  "fl_less (Finite False 0 0) (Finite False 5902958103587057 (- 69))"
  by (simp_all add: float_eval)

lemma extract_about_3_14:
  "extract_answer ucd_basic (asc ''I think it's about 3.14'') None = Inr (asc ''3.14'')"
  by (simp add: extract_eval string_eval regex_eval)


lemma normalize_3_14: "normalize_answer ucd_basic (asc ''3.14'') = asc ''3.14''"
  using normalize_numeric [of "asc ''3.14''" ucd_basic "asc ''3.14''"
          "Finite False 7070651414971679 (- 51)"] run_3_14 repr_3_14
  by (simp add: is_integer_def) (simp add: asc_def py_rstrip_def)

lemma normalize_pi: "normalize_answer ucd_basic [0x3C0] = [0x3C0]"
  using normalize_not_numeric [of "[0x3C0]" ucd_basic "[0x3C0]"] run_pi by simp

lemma not_equivalent_3_14_pi: "\<not> equivalent ucd_basic (asc ''3.14'') [0x3C0]"
  using run_pi run_3_14 tolerance
  by (simp add: equivalent_def) (simp add: asc_def)

lemma equivalent_3_14159_pi: "equivalent ucd_basic (asc ''3.14159'') [0x3C0]"
  using run_pi tolerance
  by (simp add: equivalent_def)

text \<open>
  C5, as the code has it. The prediction \<open>I think it's about 3.14\<close> against the
  reference \<open>\<pi>\<close> is marked incorrect: the extracted \<open>3.14\<close> and the reference go
  through the numeric comparison as the floats \<open>3.14\<close> and \<open>3.14159\<close>, whose difference
  \<open>0.00159\<close> is not below \<open>1e-5\<close>. The first theorem is that run; the second states the
  numeric comparison in general, and the verdict of this run.
\<close>

theorem about_pi_counterexample:
  "compute ucd_basic [asc ''I think it's about 3.14''] [[0x3C0]] default_options =
     Inr \<lparr> score = PyFloat (Finite False 0 0), correct = 0, total = 1,
           details = [\<lparr> index = 0, prediction = asc ''I think it's about 3.14'',
                        extracted = asc ''3.14'', reference = [0x3C0],
                        normalized_reference = [0x3C0], is_correct = False \<rparr>] \<rparr>"
  using extract_about_3_14 normalize_3_14 normalize_pi not_equivalent_3_14_pi
  by (simp add: compute_def normalize_references_def default_options_def to_double_zero)

theorem numeric_tolerance:
  "(pred \<noteq> ref \<longrightarrow> py_float U (pi_subst pred) = Some a \<longrightarrow> py_float U (pi_subst ref) = Some b \<longrightarrow>
      equivalent U pred ref = fl_less (fl_abs (fl_sub a b)) (to_double False 1 100000)) \<and>
   \<not> equivalent ucd_basic (asc ''3.14'') [0x3C0] \<and>
   (\<exists>rep. compute ucd_basic [asc ''I think it's about 3.14''] [[0x3C0]] default_options = Inr rep \<and>
          correct rep = 0 \<and> map is_correct (details rep) = [False])"
proof -
  have "pred \<noteq> ref \<Longrightarrow> py_float U (pi_subst pred) = Some a \<Longrightarrow>
      py_float U (pi_subst ref) = Some b \<Longrightarrow>
      equivalent U pred ref = fl_less (fl_abs (fl_sub a b)) (to_double False 1 100000)"
    by (simp add: equivalent_def)
  moreover have "\<exists>rep. compute ucd_basic [asc ''I think it's about 3.14''] [[0x3C0]]
        default_options = Inr rep \<and> correct rep = 0 \<and> map is_correct (details rep) = [False]"
    using extract_about_3_14 normalize_3_14 normalize_pi not_equivalent_3_14_pi
    by (simp add: compute_def normalize_references_def default_options_def)
  ultimately show ?thesis
    using not_equivalent_3_14_pi by blast
qed

theorem numeric_tolerance_witness:
  "asc ''3.14159'' \<noteq> [0x3C0] \<and>
   py_float ucd_basic (pi_subst (asc ''3.14159'')) = Some (Finite False 3537115888337719 (- 50)) \<and>
   py_float ucd_basic (pi_subst [0x3C0]) = Some (Finite False 3537115888337719 (- 50)) \<and>
   equivalent ucd_basic (asc ''3.14159'') [0x3C0]"
  using numeric_tolerance [of "asc ''3.14159''" "[0x3C0]" ucd_basic
          "Finite False 3537115888337719 (- 50)" "Finite False 3537115888337719 (- 50)"]
        run_pi tolerance
  by (simp add: asc_def)






subsection \<open>The report\<close>

lemma extract_predictions_length:
  "extract_predictions U opts ps = Inr exs \<Longrightarrow> length exs = length ps"
  by (induction ps arbitrary: exs) (auto split: sum.splits)

lemma score_loop_result:
  "score_loop U ps eps rs nrs i pairs (cnt, ds) =
     (cnt + length (filter (\<lambda>(pred, ref). equivalent U pred ref) pairs),
      ds @ map (\<lambda>(k, pred, ref).
                  \<lparr> index = k, prediction = ps ! k, extracted = eps ! k, reference = rs ! k,
                    normalized_reference = nrs ! k, is_correct = equivalent U pred ref \<rparr>)
               (zip [i..<i + length pairs] pairs))"
proof (induction pairs arbitrary: i cnt ds)
  case Nil
  show ?case by simp
next
  case (Cons pr pairs)
  obtain pred ref where pr: "pr = (pred, ref)" by (cases pr)
  show ?case
    by (simp add: Cons.IH Let_def pr upt_conv_Cons del: upt_Suc)
qed

lemma pw2_Suc: "pw2 (e + 1) = 2 * pw2 e"
proof (cases "0 \<le> e")
  case True
  then show ?thesis by (simp add: pw2_def nat_add_distrib)
next
  case False
  show ?thesis
  proof (cases "e = - 1")
    case True
    then show ?thesis by (simp add: pw2_def)
  next
    case False
    with \<open>\<not> 0 \<le> e\<close> have e: "e < - 1" by simp
    then have "nat (- e) = Suc (nat (- (e + 1)))" by simp
    with e show ?thesis by (simp add: pw2_def)
  qed
qed

lemma value_of_Finite: "value_of (Finite s m e) = (if s then - 1 else 1) * of_nat m * pw2 e"
  by (simp add: value_of_def pw2_def)

lemma dy_norm_value:
  "dy_norm m e = (m', e') \<Longrightarrow> of_nat m' * pw2 e' = of_nat m * pw2 e"
proof (induction m e rule: dy_norm.induct)
  case (1 m e)
  show ?case
  proof (cases "m = 0")
    case True
    with "1.prems" show ?thesis by (simp add: dy_norm.simps)
  next
    case False
    show ?thesis
    proof (cases "even m")
      case True
      with False "1.prems" have "dy_norm (m div 2) (e + 1) = (m', e')"
        by (subst (asm) dy_norm.simps) simp
      from "1.IH" [OF False True this]
      have "of_nat m' * pw2 e' = of_nat (m div 2) * pw2 (e + 1)" .
      also have "\<dots> = of_nat (2 * (m div 2)) * pw2 e"
        by (simp add: pw2_Suc)
      also from True have "2 * (m div 2) = m" by simp
      finally show ?thesis .
    next
      case odd: False
      with False "1.prems" show ?thesis
        by (subst (asm) dy_norm.simps) simp
    qed
  qed
qed

lemma bitlen_mono: "a \<le> b \<Longrightarrow> bitlen a \<le> bitlen b"
proof (induction b arbitrary: a rule: bitlen.induct)
  case (1 b)
  show ?case
  proof (cases "a = 0")
    case True
    then show ?thesis by (simp add: bitlen.simps)
  next
    case False
    with "1.prems" have b: "b \<noteq> 0" by simp
    from "1.prems" have "a div 2 \<le> b div 2" by (rule div_le_mono)
    from "1.IH" [OF b this] False b show ?thesis
      by (subst bitlen.simps, subst (2) bitlen.simps) simp
  qed
qed

lemma ilog2_le_0: "c \<le> n \<Longrightarrow> ilog2 c n \<le> 0"
  using bitlen_mono [of c n]
  by (simp add: ilog2_def Let_def split: prod.splits)

lemma round_half_even_le:
  assumes "0 < d" and "a \<le> N * d"
  shows "round_half_even a d \<le> N"
proof -
  from assms have q: "a div d \<le> N"
    by (metis div_le_mono div_mult_self_is_m)
  show ?thesis
  proof (cases "a div d = N")
    case True
    have "a = d * (a div d) + a mod d" by simp
    with True assms(2) have "a mod d = 0"
      by (metis add_le_same_cancel1 le_zero_eq mult.commute)
    with True assms(1) show ?thesis
      by (simp add: round_half_even_def)
  next
    case False
    with q have "a div d < N" by simp
    then show ?thesis
      by (simp add: round_half_even_def Let_def)
  qed
qed

lemma round_half_even_error:
  assumes "0 < d"
  shows "\<bar>of_nat (round_half_even a d) - (of_nat a / of_nat d :: rat)\<bar> \<le> 1 / 2"
proof -
  define q r where "q = a div d" and "r = a mod d"
  have a: "a = q * d + r" and r: "r < d"
    using assms by (simp_all add: q_def r_def)
  from assms have d: "(of_nat d :: rat) > 0" by simp
  have frac: "(of_nat a / of_nat d :: rat) = of_nat q + of_nat r / of_nat d"
    using d by (simp add: a field_simps)
  consider (lo) "2 * r < d" | (hi) "d < 2 * r" | (tie) "2 * r = d"
    by linarith
  then show ?thesis
  proof cases
    case lo
    then have "round_half_even a d = q"
      by (simp add: round_half_even_def q_def r_def Let_def)
    moreover from lo have "2 * of_nat r \<le> (of_nat d :: rat)"
      by (metis less_imp_le_nat of_nat_le_iff of_nat_mult of_nat_numeral)
    then have "(of_nat r / of_nat d :: rat) \<le> 1 / 2"
      using d by (simp add: field_simps)
    moreover have "(0 :: rat) \<le> of_nat r / of_nat d" by simp
    ultimately show ?thesis by (simp add: frac)
  next
    case hi
    then have "round_half_even a d = q + 1"
      by (simp add: round_half_even_def q_def r_def Let_def)
    moreover from hi have "(of_nat d :: rat) \<le> 2 * of_nat r"
      by (metis less_imp_le_nat of_nat_le_iff of_nat_mult of_nat_numeral)
    then have "(1 / 2 :: rat) \<le> of_nat r / of_nat d"
      using d by (simp add: field_simps)
    moreover from r have "(of_nat r / of_nat d :: rat) \<le> 1"
      using d by (simp add: field_simps)
    ultimately show ?thesis by (simp add: frac)
  next
    case tie
    then have "2 * of_nat r = (of_nat d :: rat)"
      by (metis of_nat_mult of_nat_numeral)
    then have "(of_nat r / of_nat d :: rat) = 1 / 2"
      using d by (simp add: field_simps)
    with frac have av: "(of_nat a / of_nat d :: rat) = of_nat q + 1 / 2"
      by simp
    have "round_half_even a d = q \<or> round_half_even a d = q + 1"
      by (simp add: round_half_even_def q_def r_def Let_def)
    then show ?thesis
    proof
      assume "round_half_even a d = q"
      then show ?thesis unfolding av by simp
    next
      assume "round_half_even a d = q + 1"
      then show ?thesis unfolding av by simp
    qed
  qed
qed

lemma to_double_quotient:
  assumes n: "0 < n" and cn: "c \<le> n"
  shows "\<exists>m e. to_double False c n = Finite False m e \<and>
           0 \<le> value_of (Finite False m e) \<and> value_of (Finite False m e) \<le> 1 \<and>
           \<bar>value_of (Finite False m e) - of_nat c / of_nat n\<bar> \<le> 1 / 2 ^ 53"
proof (cases "c = 0")
  case True
  then show ?thesis by (simp add: to_double_zero value_of_Finite)
next
  case False
  define sh where "sh = max (ilog2 c n) (- 1022) - 52"
  define t where "t = nat (- sh)"
  define m where "m = round_half_even (c * 2 ^ t) n"
  from ilog2_le_0 [OF cn] have sh: "sh \<le> - 52" by (simp add: sh_def)
  then have t: "52 \<le> t" and sht: "sh < 0" by (simp_all add: t_def)
  have sc: "scale2 c n sh = (c * 2 ^ t, n)"
    using sht by (simp add: scale2_def t_def)
  obtain m' e' where dy: "dy_norm m sh = (m', e')" by (cases "dy_norm m sh")
  have td: "to_double False c n = Finite False m' e'"
    using False sht dy
    by (simp add: to_double_def sh_def [symmetric] sc m_def [symmetric] Let_def)
  have pw: "pw2 sh = 1 / 2 ^ t"
    using sht by (simp add: pw2_def t_def)
  have v: "value_of (Finite False m' e') = of_nat m / 2 ^ t"
    using dy_norm_value [OF dy] by (simp add: value_of_Finite pw)
  have "c * 2 ^ t \<le> 2 ^ t * n" using cn by simp
  from round_half_even_le [OF n this] have ml: "m \<le> 2 ^ t" by (simp add: m_def)
  then have "(of_nat m :: rat) \<le> 2 ^ t"
    by (metis of_nat_le_iff of_nat_numeral of_nat_power)
  then have le1: "(of_nat m / 2 ^ t :: rat) \<le> 1" by (simp add: field_simps)
  have ge0: "(0 :: rat) \<le> of_nat m / 2 ^ t" by simp
  from round_half_even_error [OF n, of "c * 2 ^ t"]
  have "\<bar>of_nat m - (of_nat (c * 2 ^ t) / of_nat n :: rat)\<bar> \<le> 1 / 2"
    by (simp add: m_def)
  then have x: "\<bar>of_nat m - (of_nat c / of_nat n :: rat) * 2 ^ t\<bar> \<le> 1 / 2"
    by simp
  have "\<bar>(of_nat m - (of_nat c / of_nat n :: rat) * 2 ^ t) / 2 ^ t\<bar> =
          \<bar>of_nat m - (of_nat c / of_nat n :: rat) * 2 ^ t\<bar> / 2 ^ t"
    by (simp add: abs_divide)
  also from x have "\<dots> \<le> (1 / 2) / 2 ^ t"
    by (rule divide_right_mono) simp
  finally have e1: "\<bar>(of_nat m - (of_nat c / of_nat n :: rat) * 2 ^ t) / 2 ^ t\<bar> \<le> (1 / 2) / 2 ^ t" .
  have e2: "(of_nat m - (of_nat c / of_nat n :: rat) * 2 ^ t) / 2 ^ t
                   = of_nat m / 2 ^ t - of_nat c / of_nat n"
    by (simp add: field_simps)
  have e3: "(1 / 2 :: rat) / 2 ^ t \<le> 1 / 2 ^ 53"
  proof -
    from t have "(2 :: rat) ^ 53 \<le> 2 ^ Suc t"
      by (intro power_increasing) simp_all
    then have "1 / (2 :: rat) ^ Suc t \<le> 1 / 2 ^ 53"
      by (intro divide_left_mono) simp_all
    then show ?thesis by simp
  qed
  from e1 have "\<bar>of_nat m / 2 ^ t - (of_nat c / of_nat n :: rat)\<bar> \<le> (1 / 2) / 2 ^ t"
    unfolding e2 .
  then have err: "\<bar>of_nat m / 2 ^ t - (of_nat c / of_nat n :: rat)\<bar> \<le> 1 / 2 ^ 53"
    using e3 by (rule order_trans)
  from td v le1 ge0 err show ?thesis
    by (intro exI [of _ m'] exI [of _ e']) (simp only: v simp_thms)
qed

text \<open>
  C1. For inputs of equal length, a report returned by \<open>compute\<close> has \<open>total\<close> equal to
  the number of predictions and one verdict per prediction, in input order, each carrying
  its prediction and reference; \<open>correct\<close> is the number of verdicts marked correct and is
  at most \<open>total\<close>; \<open>score\<close> is the integer 0 when there are no predictions and otherwise
  the float quotient \<open>correct / total\<close>, which lies between 0 and 1 and differs from the
  exact quotient by at most \<open>2\<^sup>-\<^sup>5\<^sup>3\<close>. Without a caller pattern \<open>compute\<close> does return a
  report.
\<close>

theorem compute_report:
  "(length predictions = length references \<longrightarrow> compute U predictions references opts = Inr rep \<longrightarrow>
      total rep = length predictions \<and>
      length (details rep) = length predictions \<and>
      map index (details rep) = [0..<length predictions] \<and>
      map prediction (details rep) = predictions \<and>
      map reference (details rep) = references \<and>
      correct rep = length (filter is_correct (details rep)) \<and>
      correct rep \<le> total rep \<and>
      score rep = (if total rep = 0 then PyInt 0
                   else PyFloat (to_double False (correct rep) (total rep))) \<and>
      0 \<le> num_value (score rep) \<and> num_value (score rep) \<le> 1 \<and>
      (total rep \<noteq> 0 \<longrightarrow>
         \<bar>num_value (score rep) - of_nat (correct rep) / of_nat (total rep)\<bar> \<le> 1 / 2 ^ 53)) \<and>
   (length predictions = length references \<longrightarrow> answer_pattern opts = None \<longrightarrow>
      (\<exists>r. compute U predictions references opts = Inr r))"
proof -
  have ex: "\<exists>r. compute U predictions references opts = Inr r"
    if "length predictions = length references" "answer_pattern opts = None"
  proof -
    from extract_predictions_no_pattern [OF that(2)] obtain exs where
      "extract_predictions U opts predictions = Inr exs" by blast
    with that(1) show ?thesis
      by (simp add: compute_def Let_def split: prod.splits)
  qed
  have main: "total rep = length predictions \<and>
      length (details rep) = length predictions \<and>
      map index (details rep) = [0..<length predictions] \<and>
      map prediction (details rep) = predictions \<and>
      map reference (details rep) = references \<and>
      correct rep = length (filter is_correct (details rep)) \<and>
      correct rep \<le> total rep \<and>
      score rep = (if total rep = 0 then PyInt 0
                   else PyFloat (to_double False (correct rep) (total rep))) \<and>
      0 \<le> num_value (score rep) \<and> num_value (score rep) \<le> 1 \<and>
      (total rep \<noteq> 0 \<longrightarrow>
         \<bar>num_value (score rep) - of_nat (correct rep) / of_nat (total rep)\<bar> \<le> 1 / 2 ^ 53)"
    if len: "length predictions = length references"
      and c: "compute U predictions references opts = Inr rep"
  proof -
    from c len obtain exs where
      exs: "extract_predictions U opts predictions = Inr exs"
      by (auto simp: compute_def split: sum.splits)
    define nrs where "nrs = normalize_references U opts references"
    define pairs where "pairs = zip exs nrs"
    define mk where "mk = (\<lambda>(k, pred, ref).
        \<lparr> index = k, prediction = predictions ! k, extracted = exs ! k,
          reference = references ! k, normalized_reference = nrs ! k,
          is_correct = equivalent U pred ref \<rparr>)"
    define ds where "ds = map mk (zip [0..<0 + length pairs] pairs)"
    define cnt where "cnt = length (filter (\<lambda>(pred, ref). equivalent U pred ref) pairs)"
    have lp: "length pairs = length predictions"
      using extract_predictions_length [OF exs] len
      by (simp add: pairs_def nrs_def normalize_references_def)
    have loop: "score_loop U predictions exs references nrs 0 pairs (0, []) = (cnt, ds)"
      unfolding score_loop_result cnt_def ds_def mk_def by simp
    have rep: "rep = \<lparr> score = (if predictions \<noteq> []
                                  then PyFloat (to_double False cnt (length predictions))
                                  else PyInt 0),
                        correct = cnt, total = length predictions, details = ds \<rparr>"
      using c len exs loop
      by (simp add: compute_def nrs_def [symmetric] pairs_def [symmetric] Let_def)
    have lds: "length ds = length predictions"
      by (simp add: ds_def lp)
    have idx: "map index ds = [0..<length predictions]"
      by (rule nth_equalityI) (simp_all add: ds_def mk_def lp split: prod.splits)
    have prd: "map prediction ds = predictions"
      by (rule nth_equalityI) (simp_all add: ds_def mk_def lp split: prod.splits)
    have rfs: "map reference ds = references"
      by (rule nth_equalityI) (simp_all add: ds_def mk_def lp len split: prod.splits)
    have "map is_correct ds = map (\<lambda>(pred, ref). equivalent U pred ref) pairs"
      by (rule nth_equalityI) (simp_all add: ds_def mk_def split: prod.splits)
    then have "length (filter is_correct ds) = cnt"
      unfolding cnt_def
      by (metis (no_types) filter_map length_map o_def id_apply comp_apply
            filter_cong)
    then have cf: "cnt = length (filter is_correct ds)" by simp
    have cle: "cnt \<le> length predictions"
      unfolding cnt_def using length_filter_le [of _ pairs] lp by simp
    have sc: "0 \<le> num_value (score rep) \<and> num_value (score rep) \<le> 1 \<and>
      (total rep \<noteq> 0 \<longrightarrow>
         \<bar>num_value (score rep) - of_nat (correct rep) / of_nat (total rep)\<bar> \<le> 1 / 2 ^ 53)"
    proof (cases "predictions = []")
      case True
      then show ?thesis by (simp add: rep num_value_def)
    next
      case False
      then have "0 < length predictions" by simp
      from to_double_quotient [OF this cle] False show ?thesis
        by (auto simp: rep num_value_def)
    qed
    from sc cf cle lds idx prd rfs show ?thesis
      by (simp add: rep)
  qed
  from ex main show ?thesis by blast
qed

lemma run_two_items:
  "extract_answer ucd_basic (asc ''The answer is 42.'') None = Inr (asc ''42'')"
  "extract_answer ucd_basic (asc ''maybe seven'') None = Inr (asc ''maybe seven'')"
  by (simp_all add: extract_eval string_eval regex_eval)

lemma run_42:
  "clean_answer ucd_basic (asc ''42'') = asc ''42''"
  "re_match ucd_basic False numeric_pattern (asc ''42'') = Some (0, 2, None)"
  "py_float ucd_basic (asc ''42'') = Some (Finite False 21 1)"
  "str_int (int_of_float (Finite False 21 1)) = asc ''42''"
  "clean_answer ucd_basic (asc ''7'') = asc ''7''"
  "re_match ucd_basic False numeric_pattern (asc ''7'') = Some (0, 1, None)"
  "py_float ucd_basic (asc ''7'') = Some (Finite False 7 0)"
  "str_int (int_of_float (Finite False 7 0)) = asc ''7''"
  "clean_answer ucd_basic (asc ''maybe seven'') = asc ''maybe seven''"
  "re_match ucd_basic False numeric_pattern (asc ''maybe seven'') = None"
  "py_float ucd_basic (pi_subst (asc ''maybe seven'')) = None"
  by (simp_all add: normalize_eval string_eval regex_eval float_eval pi_subst_def)

lemma normalize_two_items:
  "normalize_answer ucd_basic (asc ''42'') = asc ''42''"
  "normalize_answer ucd_basic (asc ''7'') = asc ''7''"
  "normalize_answer ucd_basic (asc ''maybe seven'') = asc ''maybe seven''"
  using normalize_numeric [of "asc ''42''" ucd_basic "asc ''42''" "Finite False 21 1"]
        normalize_numeric [of "asc ''7''" ucd_basic "asc ''7''" "Finite False 7 0"]
        normalize_not_numeric [of "asc ''maybe seven''" ucd_basic "asc ''maybe seven''"]
        run_42
  by (simp_all add: is_integer_def) (simp_all add: asc_def)

lemma equivalent_two_items:
  "equivalent ucd_basic (asc ''42'') (asc ''42'')"
  "\<not> equivalent ucd_basic (asc ''maybe seven'') (asc ''7'')"
  using run_42 by (simp_all add: equivalent_def) (simp_all add: asc_def)

lemma half:
  "to_double False (Suc 0) 2 = Finite False (Suc 0) (- 1)"
  "to_double False (Suc 0) (Suc (Suc 0)) = Finite False (Suc 0) (- 1)"
proof -
  show a: "to_double False (Suc 0) 2 = Finite False (Suc 0) (- 1)"
    by (simp add: float_eval)
  then show "to_double False (Suc 0) (Suc (Suc 0)) = Finite False (Suc 0) (- 1)"
    by (simp add: numeral_2_eq_2)
qed

lemma compute_two_items:
  "compute ucd_basic [asc ''The answer is 42.'', asc ''maybe seven''] [asc ''42'', asc ''7'']
     default_options =
     Inr \<lparr> score = PyFloat (Finite False 1 (- 1)), correct = 1, total = 2,
           details = [\<lparr> index = 0, prediction = asc ''The answer is 42.'', extracted = asc ''42'',
                        reference = asc ''42'', normalized_reference = asc ''42'',
                        is_correct = True \<rparr>,
                      \<lparr> index = 1, prediction = asc ''maybe seven'',
                        extracted = asc ''maybe seven'', reference = asc ''7'',
                        normalized_reference = asc ''7'', is_correct = False \<rparr>] \<rparr>"
  using run_two_items normalize_two_items equivalent_two_items
  by (simp add: compute_def normalize_references_def default_options_def half)

theorem compute_report_witness:
  "length [asc ''The answer is 42.'', asc ''maybe seven''] = length [asc ''42'', asc ''7''] \<and>
   (\<exists>rep. compute ucd_basic [asc ''The answer is 42.'', asc ''maybe seven'']
            [asc ''42'', asc ''7''] default_options = Inr rep \<and>
      total rep = 2 \<and> correct rep = 1 \<and> map is_correct (details rep) = [True, False] \<and>
      map index (details rep) = [0, 1] \<and> score rep = PyFloat (Finite False 1 (- 1)) \<and>
      num_value (score rep) = 1 / 2)"
  using compute_report
    [of "[asc ''The answer is 42.'', asc ''maybe seven'']" "[asc ''42'', asc ''7'']" ucd_basic
        default_options
        "\<lparr> score = PyFloat (Finite False 1 (- 1)), correct = 1, total = 2,
           details = [\<lparr> index = 0, prediction = asc ''The answer is 42.'', extracted = asc ''42'',
                        reference = asc ''42'', normalized_reference = asc ''42'',
                        is_correct = True \<rparr>,
                      \<lparr> index = 1, prediction = asc ''maybe seven'',
                        extracted = asc ''maybe seven'', reference = asc ''7'',
                        normalized_reference = asc ''7'', is_correct = False \<rparr>] \<rparr>"]
    compute_two_items
  by (simp add: num_value_def value_of_def half)

subsection \<open>The last line of a text\<close>








lemma last_line_blank: "list_all is_space text \<Longrightarrow> last_line text = Inr []"
proof -
  assume "list_all is_space text"
  then have d: "dropWhile is_space text = []"
    by (simp add: list_all_iff dropWhile_eq_Nil_conv)
  have "py_strip text = []"
    unfolding py_strip_def d by simp
  then show ?thesis
    unfolding last_line_def by (simp add: py_last_def) (simp add: py_strip_def)
qed

subsection \<open>Texts on which no stage can start\<close>













end
